theory Spec2Isabelle
  imports Main "HOL-Library.Word"
begin

unbundle bit_operations_syntax

section \<open>Common substrate (base.py)\<close>

text \<open>
  Python exceptions are values. Every function of the source that can raise returns
  \<open>error + 'a\<close>, with \<open>Inl\<close> for the exception.
\<close>

datatype error = IndexError | AttributeError | ZeroDivisionError | TypeError

definition ebind :: "error + 'a \<Rightarrow> ('a \<Rightarrow> error + 'b) \<Rightarrow> error + 'b" where
  "ebind m f = (case m of Inl e \<Rightarrow> Inl e | Inr x \<Rightarrow> f x)"

text \<open>Python subscripts: \<open>xs[i]\<close> accepts \<open>-len(xs) \<le> i < len(xs)\<close>, a negative \<open>i\<close>
  standing for \<open>len(xs) + i\<close>; any other subscript raises IndexError, for a read and
  for an assignment alike.\<close>

definition py_index :: "nat \<Rightarrow> int \<Rightarrow> nat option" where
  "py_index len i =
     (if 0 \<le> i \<and> i < int len then Some (nat i)
      else if i < 0 \<and> - int len \<le> i then Some (nat (int len + i))
      else None)"

definition getitem :: "'a list \<Rightarrow> int \<Rightarrow> error + 'a" where
  "getitem xs i = (case py_index (length xs) i of None \<Rightarrow> Inl IndexError | Some j \<Rightarrow> Inr (xs ! j))"

definition setitem :: "'a list \<Rightarrow> int \<Rightarrow> 'a \<Rightarrow> error + 'a list" where
  "setitem xs i v =
     (case py_index (length xs) i of None \<Rightarrow> Inl IndexError | Some j \<Rightarrow> Inr (xs[j := v]))"

text \<open>
  \<open>DHTNode.__init__\<close>: the fields every node has. Identifiers and keys are Python
  integers; \<open>id_bits\<close> is a bit count. The values stored in \<open>data\<close> are opaque to the
  protocols; strings stand for them (the tests store strings).
\<close>

type_synonym pyval = string

record dht_node =
  node_id :: int
  id_bits :: nat
  data :: "int \<rightharpoonup> pyval"

definition id_space :: "'a dht_node_scheme \<Rightarrow> int" where
  "id_space n = 2 ^ id_bits n"

text \<open>
  \<open>LookupResult\<close>, the dataclass returned by every lookup.
\<close>

record LookupResult =
  key :: int
  responsible_node :: int
  hop_count :: nat
  path :: "int list"
  success :: bool

text \<open>
  Nodes are Python objects that are shared and mutated in place, so the state of a
  simulation is an object store \<open>heap\<close> (a reference is an index into it) together with
  \<open>NetworkSimulator.nodes\<close>, the registry from identifiers to references. Two distinct
  objects may carry the same \<open>node_id\<close>; at most one of them is registered under it.
\<close>

record 'n world =
  heap :: "'n list"
  nodes :: "int \<rightharpoonup> nat"

definition get_node :: "'n world \<Rightarrow> int \<Rightarrow> nat option" where
  "get_node w i = nodes w i"

definition register :: "'n world \<Rightarrow> nat \<Rightarrow> int \<Rightarrow> 'n world" where
  "register w r i = w\<lparr>nodes := (nodes w)(i \<mapsto> r)\<rparr>"

definition unregister :: "'n world \<Rightarrow> int \<Rightarrow> 'n world" where
  "unregister w i = w\<lparr>nodes := (nodes w)(i := None)\<rparr>"

definition deref :: "'n world \<Rightarrow> nat \<Rightarrow> error + 'n" where
  "deref w r = (if r < length (heap w) then Inr (heap w ! r) else Inl AttributeError)"

definition put :: "'n world \<Rightarrow> nat \<Rightarrow> 'n \<Rightarrow> 'n world" where
  "put w r n = w\<lparr>heap := (heap w)[r := n]\<rparr>"

section \<open>PREFIX overlay (pastry.py)\<close>

text \<open>
  \<open>PastryNode.__init__\<close>. The constructor parameters \<open>b\<close> and \<open>leaf_size\<close> are counts;
  \<open>base\<close> and \<open>num_digits\<close> are computed once from them and never assigned again, so
  they are functions of the record.
\<close>

record pastry_node = dht_node +
  pastry_b :: nat
  leaf_size :: nat
  routing_table :: "int option list list"
  leaf_set :: "int list"

definition base :: "pastry_node \<Rightarrow> nat" where
  "base n = push_bit (pastry_b n) 1"

definition num_digits :: "pastry_node \<Rightarrow> nat" where
  "num_digits n = (id_bits n + pastry_b n - 1) div pastry_b n"


text \<open>
  \<open>_get_digit\<close>. Every call site passes a position below \<open>num_digits\<close> (the range of the
  loop in \<open>_shared_prefix_length\<close>, the guards \<open>plen < num_digits\<close>), so the shift count
  is never negative.
\<close>

definition get_digit :: "pastry_node \<Rightarrow> int \<Rightarrow> nat \<Rightarrow> int" where
  "get_digit n x position =
     (let shift = (num_digits n - 1 - position) * pastry_b n
      in (drop_bit shift x) AND (int (base n) - 1))"

fun spl_loop :: "pastry_node \<Rightarrow> int \<Rightarrow> int \<Rightarrow> nat list \<Rightarrow> nat" where
  "spl_loop n x y [] = num_digits n"
| "spl_loop n x y (i # is) =
     (if get_digit n x i \<noteq> get_digit n y i then i else spl_loop n x y is)"

definition shared_prefix_length :: "pastry_node \<Rightarrow> int \<Rightarrow> int \<Rightarrow> nat" where
  "shared_prefix_length n x y = spl_loop n x y [0 ..< num_digits n]"

definition circular_distance :: "pastry_node \<Rightarrow> int \<Rightarrow> int \<Rightarrow> int" where
  "circular_distance n x y = (let diff = \<bar>x - y\<bar> in min diff (id_space n - diff))"

text \<open>
  \<open>_route_next\<close>. Step 1 reads the cell of the routing table for the first digit where
  the key leaves the node's own prefix. Step 2 scans the leaf set and then every cell of
  the routing table, keeping in \<open>(best, best_dist)\<close> the candidate seen so far.
\<close>

definition scan_step :: "pastry_node world \<Rightarrow> pastry_node \<Rightarrow> int \<Rightarrow>
    int option \<times> int \<Rightarrow> int \<Rightarrow> int option \<times> int" where
  "scan_step w n k acc nid =
     (case acc of (best, best_dist) \<Rightarrow>
        if get_node w nid = None then (best, best_dist)
        else let d = circular_distance n nid k in
          if d < best_dist \<or> (d = best_dist \<and> (case best of None \<Rightarrow> False | Some bst \<Rightarrow> nid < bst))
          then (Some nid, d) else (best, best_dist))"

definition scan_entry :: "pastry_node world \<Rightarrow> pastry_node \<Rightarrow> int \<Rightarrow>
    int option \<times> int \<Rightarrow> int option \<Rightarrow> int option \<times> int" where
  "scan_entry w n k acc entry =
     (case entry of None \<Rightarrow> acc | Some e \<Rightarrow> scan_step w n k acc e)"

definition route_step1 :: "pastry_node world \<Rightarrow> pastry_node \<Rightarrow> int \<Rightarrow> error + int option" where
  "route_step1 w n k =
     (let plen = shared_prefix_length n (node_id n) k in
      if plen < num_digits n then
        ebind (getitem (routing_table n) (int plen)) (\<lambda>row.
        ebind (getitem row (get_digit n k plen)) (\<lambda>entry.
          case entry of
            None \<Rightarrow> Inr None
          | Some e \<Rightarrow> if get_node w e \<noteq> None then Inr (Some e) else Inr None))
      else Inr None)"

definition route_next :: "pastry_node world \<Rightarrow> pastry_node \<Rightarrow> int \<Rightarrow> error + int option" where
  "route_next w n k =
     (let my_dist = circular_distance n (node_id n) k in
      if my_dist = 0 then Inr None
      else ebind (route_step1 w n k) (\<lambda>hit.
        case hit of
          Some e \<Rightarrow> Inr (Some e)
        | None \<Rightarrow>
            Inr (fst (foldl (scan_entry w n k)
                       (foldl (scan_step w n k) (None, my_dist) (leaf_set n))
                       (concat (routing_table n))))))"


text \<open>The shape the constructor gives the routing table, kept by every assignment to a
  cell: \<open>num_digits\<close> rows of \<open>base\<close> cells.\<close>

definition table_shape :: "pastry_node \<Rightarrow> bool" where
  "table_shape n \<longleftrightarrow>
     length (routing_table n) = num_digits n \<and>
     list_all (\<lambda>row. length row = base n) (routing_table n)"


text \<open>A concrete PREFIX state: three registered nodes \<open>0x0200\<close>, \<open>0x0100\<close>, \<open>0xFF00\<close>
  (16-bit identifiers, 4-bit digits); the first knows the other two and still holds the
  departed \<open>0x0050\<close> in the cell that the key \<open>0x0080\<close> selects.\<close>

definition px_node :: "int \<Rightarrow> int list \<Rightarrow> int option list list \<Rightarrow> pastry_node" where
  "px_node nid leaves table =
     \<lparr>node_id = nid, id_bits = 16, data = Map.empty, pastry_b = 4, leaf_size = 8,
      routing_table = table, leaf_set = leaves\<rparr>"

definition px_empty_table :: "int option list list" where
  "px_empty_table = replicate 4 (replicate 16 None)"

definition px_a :: pastry_node where
  "px_a = px_node 0x0200 [0x0100, 0xFF00]
     [(replicate 16 None)[15 := Some 0xFF00],
      (replicate 16 None)[0 := Some 0x0050, 1 := Some 0x0100],
      replicate 16 None, replicate 16 None]"

definition px_world :: "pastry_node world" where
  "px_world =
     \<lparr>heap = [px_a, px_node 0x0100 [0x0200] px_empty_table, px_node 0xFF00 [0x0200] px_empty_table],
      nodes = [0x0200 \<mapsto> 0, 0x0100 \<mapsto> 1, 0xFF00 \<mapsto> 2]\<rparr>"

text \<open>
  \<open>PastryNode.lookup\<close>. The loop reads the store and the registry and changes neither.
  \<open>cap\<close> is \<open>self.id_bits * 2\<close>, \<open>cur\<close> the object playing \<open>current\<close>.
\<close>

function pastry_lookup_loop :: "pastry_node world \<Rightarrow> nat \<Rightarrow> int \<Rightarrow> pastry_node \<Rightarrow> nat \<Rightarrow>
    int list \<Rightarrow> int set \<Rightarrow> error + LookupResult" where
  "pastry_lookup_loop w cap k cur hops pth visited =
     (if hops \<le> cap then
        (case route_next w cur k of
           Inl e \<Rightarrow> Inl e
         | Inr None \<Rightarrow>
             Inr \<lparr>key = k, responsible_node = node_id cur, hop_count = hops, path = pth, success = True\<rparr>
         | Inr (Some next_hop) \<Rightarrow>
             if next_hop \<in> visited then
               Inr \<lparr>key = k, responsible_node = node_id cur, hop_count = hops, path = pth, success = True\<rparr>
             else
               (case get_node w next_hop of
                  None \<Rightarrow>
                    Inr \<lparr>key = k, responsible_node = node_id cur, hop_count = hops, path = pth, success = True\<rparr>
                | Some r \<Rightarrow>
                    (case deref w r of
                       Inl e \<Rightarrow> Inl e
                     | Inr next_node \<Rightarrow>
                         pastry_lookup_loop w cap k next_node (hops + 1) (pth @ [next_hop])
                           (insert next_hop visited))))
      else Inr \<lparr>key = k, responsible_node = node_id cur, hop_count = hops, path = pth, success = False\<rparr>)"
  by pat_completeness auto
termination
  by (relation "measure (\<lambda>(w, cap, k, cur, hops, pth, visited). Suc cap - hops)") auto

definition pastry_lookup :: "pastry_node world \<Rightarrow> nat \<Rightarrow> int \<Rightarrow> error + LookupResult" where
  "pastry_lookup w self k =
     ebind (deref w self) (\<lambda>s.
       pastry_lookup_loop w (id_bits s * 2) k s 0 [node_id s] {node_id s})"














text \<open>\<open>store\<close> and \<open>retrieve\<close>.\<close>

definition pastry_store :: "pastry_node world \<Rightarrow> nat \<Rightarrow> int \<Rightarrow> pyval \<Rightarrow>
    error + pastry_node world \<times> bool" where
  "pastry_store w self k v =
     ebind (pastry_lookup w self k) (\<lambda>result.
       if \<not> success result then Inr (w, False)
       else case get_node w (responsible_node result) of
              None \<Rightarrow> Inr (w, False)
            | Some r \<Rightarrow>
                ebind (deref w r) (\<lambda>target.
                  Inr (put w r (target\<lparr>data := (data target)(k \<mapsto> v)\<rparr>), True)))"

definition pastry_retrieve :: "pastry_node world \<Rightarrow> nat \<Rightarrow> int \<Rightarrow> error + pyval option" where
  "pastry_retrieve w self k =
     ebind (pastry_lookup w self k) (\<lambda>result.
       if \<not> success result then Inr None
       else case get_node w (responsible_node result) of
              None \<Rightarrow> Inr None
            | Some r \<Rightarrow> ebind (deref w r) (\<lambda>target. Inr (data target k)))"


text \<open>Creating an object: the constructor's result is appended to the store.\<close>

definition alloc :: "'n world \<Rightarrow> 'n \<Rightarrow> 'n world" where
  "alloc w n = w\<lparr>heap := heap w @ [n]\<rparr>"



section \<open>RING overlay (chord.py)\<close>

record chord_node = dht_node +
  successor :: int
  predecessor :: "int option"
  finger_table :: "int list"
  successor_list :: "int list"
  successor_list_size :: nat

definition ChordNode_init :: "int \<Rightarrow> nat \<Rightarrow> chord_node" where
  "ChordNode_init nid m =
     \<lparr>node_id = nid, id_bits = m, data = Map.empty,
      successor = nid, predecessor = None, finger_table = replicate m nid,
      successor_list = [], successor_list_size = 3\<rparr>"

definition in_open :: "int \<Rightarrow> int \<Rightarrow> int \<Rightarrow> bool" where
  "in_open x a c = (if a = c then x \<noteq> a else if a < c then a < x \<and> x < c else x > a \<or> x < c)"

definition in_half_open :: "int \<Rightarrow> int \<Rightarrow> int \<Rightarrow> bool" where
  "in_half_open x a c = (if a = c then True else if a < c then a < x \<and> x \<le> c else x > a \<or> x \<le> c)"

text \<open>\<open>_closest_preceding_finger\<close>: the fingers are tried from index \<open>id_bits - 1\<close> down
  to \<open>0\<close>.\<close>

fun cpf_loop :: "chord_node world \<Rightarrow> chord_node \<Rightarrow> int \<Rightarrow> nat list \<Rightarrow> error + int" where
  "cpf_loop w n k [] = Inr (node_id n)"
| "cpf_loop w n k (i # is) =
     (case getitem (finger_table n) (int i) of
        Inl e \<Rightarrow> Inl e
      | Inr f \<Rightarrow>
          if f \<noteq> node_id n \<and> in_open f (node_id n) k \<and> get_node w f \<noteq> None then Inr f
          else cpf_loop w n k is)"

definition closest_preceding_finger :: "chord_node world \<Rightarrow> chord_node \<Rightarrow> int \<Rightarrow> error + int" where
  "closest_preceding_finger w n k = cpf_loop w n k (rev [0 ..< id_bits n])"

text \<open>\<open>ChordNode.lookup\<close>; \<open>cap\<close> is \<open>self.id_bits * 2\<close>. The loop changes nothing.\<close>

function chord_lookup_loop :: "chord_node world \<Rightarrow> nat \<Rightarrow> int \<Rightarrow> chord_node \<Rightarrow> nat \<Rightarrow>
    int list \<Rightarrow> error + LookupResult" where
  "chord_lookup_loop w cap k cur hops pth =
     (if hops \<le> cap then
        if in_half_open k (node_id cur) (successor cur) then
          Inr \<lparr>key = k, responsible_node = successor cur, hop_count = hops, path = pth, success = True\<rparr>
        else
          (case closest_preceding_finger w cur k of
             Inl e \<Rightarrow> Inl e
           | Inr next_id \<Rightarrow>
               if next_id = node_id cur then
                 Inr \<lparr>key = k, responsible_node = successor cur, hop_count = hops, path = pth, success = True\<rparr>
               else
                 (case get_node w next_id of
                    None \<Rightarrow>
                      Inr \<lparr>key = k, responsible_node = successor cur, hop_count = hops, path = pth, success = True\<rparr>
                  | Some r \<Rightarrow>
                      (case deref w r of
                         Inl e \<Rightarrow> Inl e
                       | Inr next_node \<Rightarrow>
                           chord_lookup_loop w cap k next_node (hops + 1) (pth @ [next_id]))))
      else Inr \<lparr>key = k, responsible_node = - 1, hop_count = hops, path = pth, success = False\<rparr>)"
  by pat_completeness auto
termination
  by (relation "measure (\<lambda>(w, cap, k, cur, hops, pth). Suc cap - hops)") auto

definition chord_lookup :: "chord_node world \<Rightarrow> nat \<Rightarrow> int \<Rightarrow> error + LookupResult" where
  "chord_lookup w self k =
     ebind (deref w self) (\<lambda>s. chord_lookup_loop w (id_bits s * 2) k s 0 [node_id s])"

text \<open>
  \<open>join\<close>. The loop over the fingers \<open>1 .. id_bits - 1\<close> writes \<open>self\<close> back to the store
  after each assignment, so that the bootstrap's lookups see it if they reach \<open>self\<close>.
\<close>

fun join_fingers :: "chord_node world \<Rightarrow> nat \<Rightarrow> nat \<Rightarrow> nat list \<Rightarrow> nat \<Rightarrow>
    error + chord_node world \<times> nat" where
  "join_fingers w self bootstrap [] messages = Inr (w, messages)"
| "join_fingers w self bootstrap (i # is) messages =
     (case deref w self of
        Inl e \<Rightarrow> Inl e
      | Inr s \<Rightarrow>
          (let target = (node_id s + push_bit i 1) mod id_space s in
           case chord_lookup w bootstrap target of
             Inl e \<Rightarrow> Inl e
           | Inr result \<Rightarrow>
               (case setitem (finger_table s) (int i) (responsible_node result) of
                  Inl e \<Rightarrow> Inl e
                | Inr fingers \<Rightarrow>
                    join_fingers (put w self (s\<lparr>finger_table := fingers\<rparr>)) self bootstrap is
                      (messages + (hop_count result + 1)))))"

definition chord_join :: "chord_node world \<Rightarrow> nat \<Rightarrow> int option \<Rightarrow> error + chord_node world \<times> nat" where
  "chord_join w self bootstrap_id =
     ebind (deref w self) (\<lambda>s.
       case bootstrap_id of
         None \<Rightarrow>
           Inr (register
                  (put w self (s\<lparr>predecessor := None, successor := node_id s,
                                  finger_table := replicate (id_bits s) (node_id s)\<rparr>))
                  self (node_id s), 0)
       | Some bid \<Rightarrow>
           (case get_node w bid of
              None \<Rightarrow> Inl AttributeError
            | Some bootstrap \<Rightarrow>
                ebind (chord_lookup w bootstrap (node_id s)) (\<lambda>result.
                ebind (setitem (finger_table s) 0 (responsible_node result)) (\<lambda>fingers.
                  let s1 = s\<lparr>successor := responsible_node result, finger_table := fingers,
                              predecessor := None\<rparr>
                  in ebind (join_fingers (put w self s1) self bootstrap [1 ..< id_bits s]
                              (hop_count result + 1)) (\<lambda>(w2, messages).
                       Inr (register w2 self (node_id s), messages))))))"

text \<open>\<open>leave\<close>. Each statement reads the objects it names from the store as it stands.\<close>

definition leave_tell_successor :: "chord_node world \<Rightarrow> nat \<Rightarrow> error + chord_node world \<times> nat" where
  "leave_tell_successor w self =
     ebind (deref w self) (\<lambda>s.
       if successor s \<noteq> node_id s then
         (case get_node w (successor s) of
            None \<Rightarrow> Inr (w, 0)
          | Some r \<Rightarrow>
              ebind (deref w r) (\<lambda>succ. Inr (put w r (succ\<lparr>predecessor := predecessor s\<rparr>), 1)))
       else Inr (w, 0))"

definition leave_tell_predecessor :: "chord_node world \<Rightarrow> nat \<Rightarrow> nat \<Rightarrow>
    error + chord_node world \<times> nat" where
  "leave_tell_predecessor w self messages =
     ebind (deref w self) (\<lambda>s.
       case predecessor s of
         None \<Rightarrow> Inr (w, messages)
       | Some p \<Rightarrow>
           if p \<noteq> node_id s then
             (case get_node w p of
                None \<Rightarrow> Inr (w, messages)
              | Some r \<Rightarrow>
                  ebind (deref w r) (\<lambda>pred.
                  ebind (setitem (finger_table pred) 0 (successor s)) (\<lambda>fingers.
                    Inr (put w r (pred\<lparr>successor := successor s, finger_table := fingers\<rparr>),
                         messages + 1))))
           else Inr (w, messages))"

definition leave_transfer :: "chord_node world \<Rightarrow> nat \<Rightarrow> error + chord_node world" where
  "leave_transfer w self =
     ebind (deref w self) (\<lambda>s.
       if successor s \<noteq> node_id s then
         (case get_node w (successor s) of
            None \<Rightarrow> Inr w
          | Some r \<Rightarrow>
              ebind (deref w r) (\<lambda>succ. Inr (put w r (succ\<lparr>data := data succ ++ data s\<rparr>))))
       else Inr w)"

definition chord_leave :: "chord_node world \<Rightarrow> nat \<Rightarrow> error + chord_node world \<times> nat" where
  "chord_leave w self =
     ebind (leave_tell_successor w self) (\<lambda>(w1, m1).
     ebind (leave_tell_predecessor w1 self m1) (\<lambda>(w2, m2).
     ebind (leave_transfer w2 self) (\<lambda>w3.
     ebind (deref w3 self) (\<lambda>s.
       Inr (unregister w3 (node_id s), m2)))))"

text \<open>\<open>_notify\<close>, called on the object \<open>r\<close>.\<close>

definition notify :: "chord_node world \<Rightarrow> nat \<Rightarrow> int \<Rightarrow> error + chord_node world" where
  "notify w r candidate_id =
     ebind (deref w r) (\<lambda>n.
       if candidate_id = node_id n then Inr w
       else if (case predecessor n of None \<Rightarrow> True
                | Some p \<Rightarrow> in_open candidate_id p (node_id n))
            then Inr (put w r (n\<lparr>predecessor := Some candidate_id\<rparr>))
            else Inr w)"

text \<open>
  \<open>stabilize\<close>, in the order of the source. \<open>promote_backup\<close> is the loop over
  \<open>successor_list\<close> entered when the successor is not registered: it returns the world
  and the reference now held by \<open>succ\<close>, if any.
\<close>

fun promote_backup :: "chord_node world \<Rightarrow> nat \<Rightarrow> int list \<Rightarrow> error + chord_node world \<times> nat option" where
  "promote_backup w self [] = Inr (w, None)"
| "promote_backup w self (backup # rest) =
     (case get_node w backup of
        None \<Rightarrow> promote_backup w self rest
      | Some r \<Rightarrow>
          (case deref w self of
             Inl e \<Rightarrow> Inl e
           | Inr s \<Rightarrow>
               (case setitem (finger_table s) 0 backup of
                  Inl e \<Rightarrow> Inl e
                | Inr fingers \<Rightarrow>
                    Inr (put w self (s\<lparr>successor := backup, finger_table := fingers\<rparr>), Some r))))"

definition adopt_predecessor :: "chord_node world \<Rightarrow> nat \<Rightarrow> nat \<Rightarrow> error + chord_node world" where
  "adopt_predecessor w self succ_ref =
     ebind (deref w succ_ref) (\<lambda>succ.
     ebind (deref w self) (\<lambda>s.
       case predecessor succ of
         None \<Rightarrow> Inr w
       | Some x \<Rightarrow>
           if x \<noteq> node_id s \<and> get_node w x \<noteq> None \<and> in_open x (node_id s) (successor s) then
             ebind (setitem (finger_table s) 0 x) (\<lambda>fingers.
               Inr (put w self (s\<lparr>successor := x, finger_table := fingers\<rparr>)))
           else Inr w))"

definition notify_successor :: "chord_node world \<Rightarrow> nat \<Rightarrow> error + chord_node world" where
  "notify_successor w self =
     ebind (deref w self) (\<lambda>s.
       case get_node w (successor s) of
         None \<Rightarrow> Inr w
       | Some r \<Rightarrow> notify w r (node_id s))"

fun fix_fingers :: "chord_node world \<Rightarrow> nat \<Rightarrow> nat list \<Rightarrow> error + chord_node world" where
  "fix_fingers w self [] = Inr w"
| "fix_fingers w self (i # is) =
     (case deref w self of
        Inl e \<Rightarrow> Inl e
      | Inr s \<Rightarrow>
          (let target = (node_id s + push_bit i 1) mod id_space s in
           case chord_lookup w self target of
             Inl e \<Rightarrow> Inl e
           | Inr result \<Rightarrow>
               if success result then
                 (case setitem (finger_table s) (int i) (responsible_node result) of
                    Inl e \<Rightarrow> Inl e
                  | Inr fingers \<Rightarrow> fix_fingers (put w self (s\<lparr>finger_table := fingers\<rparr>)) self is)
               else fix_fingers w self is))"

fun walk_successors :: "chord_node world \<Rightarrow> int \<Rightarrow> int \<Rightarrow> nat \<Rightarrow> int list \<Rightarrow> error + int list" where
  "walk_successors w self_id cur 0 acc = Inr acc"
| "walk_successors w self_id cur (Suc n) acc =
     (if cur = self_id then Inr acc
      else case get_node w cur of
             None \<Rightarrow> Inr (acc @ [cur])
           | Some r \<Rightarrow>
               (case deref w r of
                  Inl e \<Rightarrow> Inl e
                | Inr node \<Rightarrow> walk_successors w self_id (successor node) n (acc @ [cur])))"

definition stabilize_rest :: "chord_node world \<Rightarrow> nat \<Rightarrow> nat \<Rightarrow> error + chord_node world" where
  "stabilize_rest w self succ_ref =
     ebind (adopt_predecessor w self succ_ref) (\<lambda>w1.
     ebind (notify_successor w1 self) (\<lambda>w2.
     ebind (deref w2 self) (\<lambda>s2.
     ebind (fix_fingers w2 self [0 ..< id_bits s2]) (\<lambda>w3.
     ebind (deref w3 self) (\<lambda>s3.
     ebind (walk_successors w3 (node_id s3) (successor s3) (successor_list_size s3) []) (\<lambda>succs.
       Inr (put w3 self (s3\<lparr>successor_list := succs\<rparr>))))))))"

definition chord_stabilize :: "chord_node world \<Rightarrow> nat \<Rightarrow> error + chord_node world" where
  "chord_stabilize w self =
     ebind (deref w self) (\<lambda>s.
       case get_node w (successor s) of
         Some succ_ref \<Rightarrow> stabilize_rest w self succ_ref
       | None \<Rightarrow>
           ebind (promote_backup w self (successor_list s)) (\<lambda>(w1, found).
             case found of
               None \<Rightarrow> ebind (deref w1 self) (\<lambda>s1. Inr (put w1 self (s1\<lparr>successor := node_id s1\<rparr>)))
             | Some succ_ref \<Rightarrow> stabilize_rest w1 self succ_ref))"

definition chord_store :: "chord_node world \<Rightarrow> nat \<Rightarrow> int \<Rightarrow> pyval \<Rightarrow>
    error + chord_node world \<times> bool" where
  "chord_store w self k v =
     ebind (chord_lookup w self k) (\<lambda>result.
       if \<not> success result then Inr (w, False)
       else case get_node w (responsible_node result) of
              None \<Rightarrow> Inr (w, False)
            | Some r \<Rightarrow>
                ebind (deref w r) (\<lambda>target.
                  Inr (put w r (target\<lparr>data := (data target)(k \<mapsto> v)\<rparr>), True)))"

definition chord_retrieve :: "chord_node world \<Rightarrow> nat \<Rightarrow> int \<Rightarrow> error + pyval option" where
  "chord_retrieve w self k =
     ebind (chord_lookup w self k) (\<lambda>result.
       if \<not> success result then Inr None
       else case get_node w (responsible_node result) of
              None \<Rightarrow> Inr None
            | Some r \<Rightarrow> ebind (deref w r) (\<lambda>target. Inr (data target k)))"



section \<open>XOR overlay (kademlia.py)\<close>

text \<open>
  \<open>KademliaNode.__init__\<close>. The parameters \<open>k\<close> (bucket capacity) and \<open>alpha\<close> (lookup
  width) are counts.
\<close>

record kad_node = dht_node +
  kad_k :: nat
  kad_alpha :: nat
  buckets :: "int list list"

definition KademliaNode_init :: "int \<Rightarrow> nat \<Rightarrow> nat \<Rightarrow> nat \<Rightarrow> kad_node" where
  "KademliaNode_init nid m kk al =
     \<lparr>node_id = nid, id_bits = m, data = Map.empty,
      kad_k = kk, kad_alpha = al, buckets = replicate m []\<rparr>"

definition distance :: "int \<Rightarrow> int \<Rightarrow> int" where
  "distance x y = x XOR y"

text \<open>\<open>int.bit_length()\<close>: the number of binary digits of the absolute value.\<close>

fun bits_of :: "nat \<Rightarrow> nat" where
  "bits_of n = (if n = 0 then 0 else Suc (bits_of (n div 2)))"

definition bit_length :: "int \<Rightarrow> nat" where
  "bit_length x = bits_of (nat \<bar>x\<bar>)"

definition bucket_index :: "kad_node \<Rightarrow> int \<Rightarrow> int" where
  "bucket_index n nid =
     (let dist = distance (node_id n) nid in
      if dist = 0 then 0 else int (bit_length dist) - 1)"

text \<open>\<open>_update_bucket\<close>, called on the object \<open>self\<close>.\<close>

definition update_bucket :: "kad_node world \<Rightarrow> nat \<Rightarrow> int \<Rightarrow> error + kad_node world" where
  "update_bucket w self nid =
     ebind (deref w self) (\<lambda>s.
       if nid = node_id s then Inr w
       else
         let idx = bucket_index s nid in
         ebind (getitem (buckets s) idx) (\<lambda>bucket.
           if nid \<in> set bucket then
             ebind (setitem (buckets s) idx (remove1 nid bucket @ [nid])) (\<lambda>bs.
               Inr (put w self (s\<lparr>buckets := bs\<rparr>)))
           else if length bucket < kad_k s then
             ebind (setitem (buckets s) idx (bucket @ [nid])) (\<lambda>bs.
               Inr (put w self (s\<lparr>buckets := bs\<rparr>)))
           else Inr w))"

definition find_closest_local :: "kad_node \<Rightarrow> int \<Rightarrow> nat \<Rightarrow> int list" where
  "find_closest_local n target count =
     take count (sort_key (\<lambda>nid. distance nid target) (concat (buckets n)))"

text \<open>\<open>find_node_rpc\<close>, called on the object \<open>r\<close> by the node \<open>querier_id\<close>.\<close>

definition find_node_rpc :: "kad_node world \<Rightarrow> nat \<Rightarrow> int \<Rightarrow> int \<Rightarrow>
    error + kad_node world \<times> int list" where
  "find_node_rpc w r target querier_id =
     ebind (update_bucket w r querier_id) (\<lambda>w1.
     ebind (deref w1 r) (\<lambda>n.
       let closest = find_closest_local n target (kad_k n);
           candidates = closest @ [node_id n]
       in Inr (w1, take (kad_k n) (sort_key (\<lambda>nid. distance nid target) candidates))))"

text \<open>
  \<open>KademliaNode.lookup\<close>. \<open>ingest\<close> is the loop over the identifiers one peer returned,
  \<open>query_all\<close> the loop over \<open>to_query\<close>, \<open>kad_lookup_loop\<close> the \<open>while True\<close> loop, one
  round per iteration. The registry of base.py has no attribute \<open>per_hop_delay\<close>, so
  \<open>getattr(self.network, "per_hop_delay", 0)\<close> is \<open>0\<close> and the round does nothing else.
\<close>

fun ingest :: "kad_node world \<Rightarrow> nat \<Rightarrow> int \<Rightarrow> int list \<Rightarrow> int list \<Rightarrow> bool \<Rightarrow>
    error + kad_node world \<times> int list \<times> bool" where
  "ingest w self self_id [] shortlist found_new = Inr (w, shortlist, found_new)"
| "ingest w self self_id (r # rs) shortlist found_new =
     (case update_bucket w self r of
        Inl e \<Rightarrow> Inl e
      | Inr w' \<Rightarrow>
          if r \<notin> set shortlist \<and> r \<noteq> self_id then ingest w' self self_id rs (shortlist @ [r]) True
          else ingest w' self self_id rs shortlist found_new)"

fun query_all :: "kad_node world \<Rightarrow> nat \<Rightarrow> int \<Rightarrow> int \<Rightarrow> int list \<Rightarrow> int list \<Rightarrow> int set \<Rightarrow>
    int list \<Rightarrow> bool \<Rightarrow> error + kad_node world \<times> int list \<times> int set \<times> int list \<times> bool" where
  "query_all w self self_id k [] shortlist queried pth found_new =
     Inr (w, shortlist, queried, pth, found_new)"
| "query_all w self self_id k (nid # rest) shortlist queried pth found_new =
     (case get_node w nid of
        None \<Rightarrow> query_all w self self_id k rest shortlist (insert nid queried) (pth @ [nid]) found_new
      | Some target_node \<Rightarrow>
          (case find_node_rpc w target_node k self_id of
             Inl e \<Rightarrow> Inl e
           | Inr (w1, returned) \<Rightarrow>
               (case ingest w1 self self_id returned shortlist found_new of
                  Inl e \<Rightarrow> Inl e
                | Inr (w2, shortlist2, found2) \<Rightarrow>
                    query_all w2 self self_id k rest shortlist2 (insert nid queried) (pth @ [nid])
                      found2)))"

function kad_lookup_loop :: "kad_node world \<Rightarrow> nat \<Rightarrow> kad_node \<Rightarrow> int \<Rightarrow> int list \<Rightarrow> int set \<Rightarrow>
    int list \<Rightarrow> nat \<Rightarrow> error + kad_node world \<times> int list \<times> int list \<times> nat" where
  "kad_lookup_loop w self s k shortlist queried pth hops =
     (let to_query = take (kad_alpha s) (filter (\<lambda>n. n \<notin> queried) shortlist) in
      if to_query = [] then Inr (w, shortlist, pth, hops)
      else
        (case query_all w self (node_id s) k to_query shortlist queried pth False of
           Inl e \<Rightarrow> Inl e
         | Inr (w1, shortlist1, queried1, pth1, found_new) \<Rightarrow>
             (let shortlist2 = take (kad_k s) (sort_key (\<lambda>n. distance n k) shortlist1) in
              if \<not> found_new then Inr (w1, shortlist2, pth1, hops + 1)
              else if hops + 1 > id_bits s * 2 then Inr (w1, shortlist2, pth1, hops + 1)
              else kad_lookup_loop w1 self s k shortlist2 queried1 pth1 (hops + 1))))"
  by pat_completeness auto
termination
  by (relation "measure (\<lambda>(w, self, s, k, shortlist, queried, pth, hops). Suc (id_bits s * 2) - hops)")
    auto

text \<open>In the loop \<open>s\<close> supplies the fields of \<open>self\<close> that are never assigned:
  \<open>node_id\<close>, \<open>id_bits\<close>, \<open>k\<close> and \<open>alpha\<close>.\<close>

definition kad_lookup :: "kad_node world \<Rightarrow> nat \<Rightarrow> int \<Rightarrow> error + kad_node world \<times> LookupResult" where
  "kad_lookup w self k =
     ebind (deref w self) (\<lambda>s.
       let shortlist = find_closest_local s k (kad_k s) in
       if shortlist = [] then
         Inr (w, \<lparr>key = k, responsible_node = node_id s, hop_count = 0, path = [node_id s],
                  success = True\<rparr>)
       else
         ebind (kad_lookup_loop w self s k shortlist {node_id s} [node_id s] 0)
           (\<lambda>(w1, shortlist1, pth, hops).
              let all_candidates = shortlist1 @ [node_id s];
                  responsible = arg_min_list (\<lambda>n. distance n k) all_candidates
              in Inr (w1, \<lparr>key = k, responsible_node = responsible, hop_count = hops, path = pth,
                           success = True\<rparr>)))"




definition kad_store :: "kad_node world \<Rightarrow> nat \<Rightarrow> int \<Rightarrow> pyval \<Rightarrow> error + kad_node world \<times> bool" where
  "kad_store w self k v =
     ebind (kad_lookup w self k) (\<lambda>(w1, result).
       if \<not> success result then Inr (w1, False)
       else case get_node w1 (responsible_node result) of
              None \<Rightarrow> Inr (w1, False)
            | Some r \<Rightarrow>
                ebind (deref w1 r) (\<lambda>target.
                  Inr (put w1 r (target\<lparr>data := (data target)(k \<mapsto> v)\<rparr>), True)))"



definition empty_world :: "'n world" where
  "empty_world = \<lparr>heap = [], nodes = Map.empty\<rparr>"

text \<open>A RING state in which a lookup runs into the hop cap: eight registered nodes with
  3-bit identifiers, node \<open>j\<close> knowing only \<open>j + 1\<close> as successor and as every finger.\<close>

definition ring8 :: "chord_node world" where
  "ring8 =
     \<lparr>heap = map (\<lambda>j. (ChordNode_init (int j) 3)
                      \<lparr>successor := int ((j + 1) mod 8),
                       finger_table := replicate 3 (int ((j + 1) mod 8))\<rparr>) [0 ..< 8],
      nodes = (\<lambda>i. if 0 \<le> i \<and> i < 8 then Some (nat i) else None)\<rparr>"

text \<open>
  A run of the public operations: nodes \<open>1\<close> and \<open>2\<close> (3-bit identifiers) are created,
  \<open>1\<close> starts a ring, \<open>2\<close> joins through \<open>1\<close>, and \<open>1\<close> leaves. \<open>successor_and_finger0\<close>
  reads \<open>successor\<close> and \<open>finger_table[0]\<close> of an object.
\<close>

definition chord_scenario_before :: "error + chord_node world" where
  "chord_scenario_before =
     (let w0 = alloc (alloc empty_world (ChordNode_init 1 3)) (ChordNode_init 2 3) in
      ebind (chord_join w0 0 None) (\<lambda>(w1, m1).
      ebind (chord_join w1 1 (Some 1)) (\<lambda>(w2, m2).
      ebind (chord_leave w2 0) (\<lambda>(w3, m3). Inr w3))))"

definition successor_and_finger0 :: "chord_node world \<Rightarrow> nat \<Rightarrow> error + int \<times> int" where
  "successor_and_finger0 w r =
     ebind (deref w r) (\<lambda>n. ebind (getitem (finger_table n) 0) (\<lambda>f. Inr (successor n, f)))"

text \<open>Properties of the world that no call of \<open>_update_bucket\<close> destroys; every
  mutation a Kademlia lookup makes is such a call.\<close>

definition bucket_closed :: "(kad_node world \<Rightarrow> bool) \<Rightarrow> bool" where
  "bucket_closed Q \<longleftrightarrow> (\<forall>w r x w'. Q w \<longrightarrow> update_bucket w r x = Inr w' \<longrightarrow> Q w')"

text \<open>Three states in which \<open>store\<close> fails: a RING node whose successor \<open>1\<close> has gone, an
  XOR node whose only known peer \<open>9\<close> has gone, and a PREFIX node that never joined.\<close>

definition chord_stale :: "chord_node world" where
  "chord_stale =
     \<lparr>heap = [(ChordNode_init 2 3)\<lparr>successor := 1, finger_table := [1, 1, 1]\<rparr>],
      nodes = [2 \<mapsto> 0]\<rparr>"

definition kad_stale :: "kad_node world" where
  "kad_stale =
     \<lparr>heap = [(KademliaNode_init 5 4 8 3)\<lparr>buckets := [[], [], [], [9]]\<rparr>],
      nodes = [5 \<mapsto> 0]\<rparr>"

definition pastry_detached :: "pastry_node world" where
  "pastry_detached = \<lparr>heap = [px_node 0x0200 [] px_empty_table], nodes = Map.empty\<rparr>"






section \<open>Reachable states\<close>


definition chord_shape :: "chord_node world \<Rightarrow> bool" where
  "chord_shape w \<longleftrightarrow> list_all (\<lambda>n. length (finger_table n) = id_bits n) (heap w)"


definition kad_node_bounded :: "kad_node \<Rightarrow> bool" where
  "kad_node_bounded n \<longleftrightarrow>
     length (buckets n) = id_bits n \<and> list_all (\<lambda>b. length b \<le> kad_k n) (buckets n)"

definition kad_bounded :: "kad_node world \<Rightarrow> bool" where
  "kad_bounded w \<longleftrightarrow> list_all kad_node_bounded (heap w)"


definition pastry_node_bounded :: "pastry_node \<Rightarrow> bool" where
  "pastry_node_bounded n \<longleftrightarrow> table_shape n \<and> length (leaf_set n) \<le> leaf_size n"

definition pastry_bounded :: "pastry_node world \<Rightarrow> bool" where
  "pastry_bounded w \<longleftrightarrow> list_all pastry_node_bounded (heap w)"



section \<open>Network constructor and identifier generators (base.py)\<close>

text \<open>
  \<open>NetworkSimulator.__init__(self)\<close> takes no argument besides \<open>self\<close>: a call with any
  keyword argument raises TypeError. The class has the attribute \<open>nodes\<close> only.
\<close>

definition NetworkSimulator_init :: "(string \<times> int) list \<Rightarrow> error + 'n world" where
  "NetworkSimulator_init kwargs = (if kwargs = [] then Inr empty_world else Inl TypeError)"

text \<open>
  \<open>generate_node_ids\<close> and \<open>generate_keys\<close>. \<open>hashlib.sha1\<close> belongs to the standard
  library; it enters as the parameter \<open>sha1\<close>, whose values are the 160-bit digests, and
  \<open>int(hexdigest, 16)\<close> is the digest read as an unsigned number. \<open>digits\<close> and \<open>str_int\<close>
  are the decimal formatting of the f-strings. The \<open>while\<close> loop has no bound, so it is
  a partial function: \<open>None\<close> stands for a call that never returns.
\<close>

type_synonym digest = "160 word"

fun digits :: "nat \<Rightarrow> string" where
  "digits n = (if n < 10 then [char_of (48 + n)] else digits (n div 10) @ [char_of (48 + n mod 10)])"

definition str_int :: "int \<Rightarrow> string" where
  "str_int i = (if i < 0 then ''-'' @ digits (nat (- i)) else digits (nat i))"

definition hash_key :: "(string \<Rightarrow> digest) \<Rightarrow> string \<Rightarrow> nat \<Rightarrow> int" where
  "hash_key sha1 s m = uint (sha1 s) mod 2 ^ m"

definition seeded :: "string \<Rightarrow> int \<Rightarrow> nat \<Rightarrow> string" where
  "seeded prefix seed i = prefix @ str_int seed @ ''-'' @ digits i"

partial_function (option) gen_loop :: "(string \<Rightarrow> digest) \<Rightarrow> string \<Rightarrow> int \<Rightarrow> nat \<Rightarrow> nat \<Rightarrow>
    int set \<Rightarrow> nat \<Rightarrow> int list option" where
  "gen_loop sha1 prefix seed count m ids i =
     (if card ids < count then
        gen_loop sha1 prefix seed count m (insert (hash_key sha1 (seeded prefix seed i) m) ids) (i + 1)
      else Some (take count (sorted_list_of_set ids)))"

declare gen_loop.simps [code]

definition generate_node_ids :: "(string \<Rightarrow> digest) \<Rightarrow> nat \<Rightarrow> nat \<Rightarrow> int \<Rightarrow> int list option" where
  "generate_node_ids sha1 count m seed = gen_loop sha1 ''node-'' seed count m {} 0"

definition generate_keys :: "(string \<Rightarrow> digest) \<Rightarrow> nat \<Rightarrow> nat \<Rightarrow> int \<Rightarrow> int list option" where
  "generate_keys sha1 count m seed = gen_loop sha1 ''key-'' seed count m {} 0"

text \<open>A stand-in hash for running the generators on a concrete input.\<close>

definition toy_hash :: "string \<Rightarrow> digest" where
  "toy_hash s = word_of_nat (foldl (\<lambda>h c. (h * 31 + of_char c) mod 65521) 7 s)"

section \<open>Properties of the PREFIX overlay\<close>










subsection \<open>The lookup loop\<close>

lemma pastry_loop_rule:
  assumes "pastry_lookup_loop w cap k cur hops pth visited = Inr r"
    and "I cur hops pth visited"
    and step: "\<And>c h p v nh ref nn. I c h p v \<Longrightarrow> h \<le> cap \<Longrightarrow> route_next w c k = Inr (Some nh) \<Longrightarrow>
        nh \<notin> v \<Longrightarrow> get_node w nh = Some ref \<Longrightarrow> deref w ref = Inr nn \<Longrightarrow>
        I nn (h + 1) (p @ [nh]) (insert nh v)"
  shows "\<exists>c h p v. I c h p v \<and>
     r = \<lparr>key = k, responsible_node = node_id c, hop_count = h, path = p, success = (h \<le> cap)\<rparr>"
  using assms
proof (induction w cap k cur hops pth visited rule: pastry_lookup_loop.induct)
  case (1 w cap k cur hops pth visited)
  note step' = "1.prems"(3)
  show ?case
  proof (cases "hops \<le> cap")
    case False
    with "1.prems" show ?thesis by auto
  next
    case le: True
    show ?thesis
    proof (cases "route_next w cur k")
      case (Inl e)
      with le "1.prems" show ?thesis by simp
    next
      case rn: (Inr nh)
      show ?thesis
      proof (cases nh)
        case None
        with le rn "1.prems" show ?thesis by auto
      next
        case nh: (Some next_hop)
        show ?thesis
        proof (cases "next_hop \<in> visited")
          case True
          with le rn nh "1.prems" show ?thesis by auto
        next
          case fresh: False
          show ?thesis
          proof (cases "get_node w next_hop")
            case None
            with le rn nh fresh "1.prems" show ?thesis by auto
          next
            case ref: (Some ref)
            show ?thesis
            proof (cases "deref w ref")
              case (Inl e)
              with le rn nh fresh ref "1.prems" show ?thesis by simp
            next
              case nn: (Inr next_node)
              have rec: "pastry_lookup_loop w cap k next_node (hops + 1) (pth @ [next_hop])
                   (insert next_hop visited) = Inr r"
                using le rn nh fresh ref nn "1.prems"(1) by simp
              have I': "I next_node (hops + 1) (pth @ [next_hop]) (insert next_hop visited)"
                using "1.prems"(2) le rn [unfolded nh] fresh ref nn by (rule step')
              show ?thesis
                by (rule "1.IH" [OF le rn nh fresh ref nn rec I']) (rule step')
            qed
          qed
        qed
      qed
    qed
  qed
qed




text \<open>
  C10. The path of every result of \<open>PastryNode.lookup\<close> has pairwise distinct entries:
  the loop appends a next hop only when it is not in \<open>visited\<close>, and \<open>visited\<close> holds
  every entry of the path.
\<close>

theorem pastry_path_distinct:
  "pastry_lookup w self k = Inr r \<Longrightarrow> distinct (path r)"
proof -
  assume a: "pastry_lookup w self k = Inr r"
  then obtain s where s: "deref w self = Inr s"
    and l: "pastry_lookup_loop w (id_bits s * 2) k s 0 [node_id s] {node_id s} = Inr r"
    by (auto simp: pastry_lookup_def ebind_def split: sum.splits)
  have init: "distinct [node_id s] \<and> set [node_id s] \<subseteq> {node_id s}"
    by simp
  have step: "distinct (p @ [nh]) \<and> set (p @ [nh]) \<subseteq> insert nh v"
    if "distinct p \<and> set p \<subseteq> v" and "nh \<notin> v" for p v and nh :: int
    using that by auto
  obtain c h p v where "distinct p \<and> set p \<subseteq> v" and "path r = p"
    using pastry_loop_rule [where I = "\<lambda>c h p v. distinct p \<and> set p \<subseteq> v", OF l init step]
    by fastforce
  then show ?thesis by simp
qed

theorem pastry_path_distinct_witness:
  "pastry_lookup px_world 0 0x0080 =
     Inr \<lparr>key = 0x0080, responsible_node = 0x0100, hop_count = 1, path = [0x0200, 0x0100], success = True\<rparr> \<and>
   distinct (path \<lparr>key = 0x0080, responsible_node = 0x0100, hop_count = 1, path = [0x0200, 0x0100], success = True\<rparr>)"
proof -
  have h: "pastry_lookup px_world 0 0x0080 =
     Inr \<lparr>key = 0x0080, responsible_node = 0x0100, hop_count = 1, path = [0x0200, 0x0100], success = True\<rparr>"
    by code_simp
  from pastry_path_distinct [OF h] h show ?thesis by blast
qed

section \<open>Properties of the RING overlay\<close>

lemma chord_loop_rule:
  assumes "chord_lookup_loop w cap k cur hops pth = Inr r"
    and "I cur hops pth"
    and "\<And>c h p nid ref nn. I c h p \<Longrightarrow> h \<le> cap \<Longrightarrow> closest_preceding_finger w c k = Inr nid \<Longrightarrow>
        get_node w nid = Some ref \<Longrightarrow> deref w ref = Inr nn \<Longrightarrow> I nn (h + 1) (p @ [nid])"
  shows "\<exists>c h p. I c h p \<and>
     (h \<le> cap \<longrightarrow>
        r = \<lparr>key = k, responsible_node = successor c, hop_count = h, path = p, success = True\<rparr>) \<and>
     (\<not> h \<le> cap \<longrightarrow>
        r = \<lparr>key = k, responsible_node = - 1, hop_count = h, path = p, success = False\<rparr>)"
  using assms
proof (induction w cap k cur hops pth rule: chord_lookup_loop.induct)
  case (1 w cap k cur hops pth)
  note step = "1.prems"(3)
  show ?case
  proof (cases "hops \<le> cap")
    case False
    with "1.prems"(1,2) show ?thesis by (intro exI [of _ cur] exI [of _ hops] exI [of _ pth]) simp
  next
    case le: True
    show ?thesis
    proof (cases "in_half_open k (node_id cur) (successor cur)")
      case True
      with le "1.prems"(1,2) show ?thesis
        by (intro exI [of _ cur] exI [of _ hops] exI [of _ pth]) auto
    next
      case out: False
      show ?thesis
      proof (cases "closest_preceding_finger w cur k")
        case (Inl e)
        with le out "1.prems" show ?thesis by simp
      next
        case cpf: (Inr next_id)
        show ?thesis
        proof (cases "next_id = node_id cur")
          case True
          with le out cpf "1.prems"(1,2) show ?thesis
            by (intro exI [of _ cur] exI [of _ hops] exI [of _ pth]) auto
        next
          case other: False
          show ?thesis
          proof (cases "get_node w next_id")
            case None
            with le out cpf other "1.prems"(1,2) show ?thesis
              by (intro exI [of _ cur] exI [of _ hops] exI [of _ pth]) auto
          next
            case ref: (Some ref)
            show ?thesis
            proof (cases "deref w ref")
              case (Inl e)
              with le out cpf other ref "1.prems" show ?thesis by simp
            next
              case nn: (Inr next_node)
              have rec: "chord_lookup_loop w cap k next_node (hops + 1) (pth @ [next_id]) = Inr r"
                using le out cpf other ref nn "1.prems"(1) by simp
              have I': "I next_node (hops + 1) (pth @ [next_id])"
                using "1.prems"(2) le cpf ref nn by (rule step)
              show ?thesis
                by (rule "1.IH" [OF le out cpf other ref nn rec I']) (rule step)
            qed
          qed
        qed
      qed
    qed
  qed
qed





text \<open>
  C8. Whenever \<open>ChordNode.lookup\<close> returns a result with \<open>success = False\<close>, its
  \<open>responsible_node\<close> is \<open>-1\<close>, which lies outside the identifier space \<open>[0, 2^m)\<close> for
  every \<open>m\<close>.
\<close>

theorem chord_failed_lookup_sentinel:
  assumes "chord_lookup w self k = Inr r" and "\<not> success r"
  shows "responsible_node r = - 1 \<and> responsible_node r \<notin> {0 ..< 2 ^ m}"
proof -
  from assms(1) obtain s where
    l: "chord_lookup_loop w (id_bits s * 2) k s 0 [node_id s] = Inr r"
    by (auto simp: chord_lookup_def ebind_def split: sum.splits)
  obtain c :: chord_node and h p where
      "h \<le> id_bits s * 2 \<longrightarrow>
        r = \<lparr>key = k, responsible_node = successor c, hop_count = h, path = p, success = True\<rparr>"
      "\<not> h \<le> id_bits s * 2 \<longrightarrow>
        r = \<lparr>key = k, responsible_node = - 1, hop_count = h, path = p, success = False\<rparr>"
    using chord_loop_rule [where I = "\<lambda>c h p. True", OF l] by blast
  with assms(2) have "responsible_node r = - 1"
    by (cases "h \<le> id_bits s * 2") auto
  then show ?thesis by simp
qed


theorem chord_failed_lookup_sentinel_witness:
  "chord_lookup ring8 0 0 =
     Inr \<lparr>key = 0, responsible_node = - 1, hop_count = 7, path = [0, 1, 2, 3, 4, 5, 6, 7],
          success = False\<rparr> \<and>
   responsible_node \<lparr>key = 0, responsible_node = - 1, hop_count = 7,
       path = [0, 1, 2, 3, 4, 5, 6, 7], success = False\<rparr> \<notin> {0 ..< 2 ^ 3}"
proof -
  have h: "chord_lookup ring8 0 0 =
     Inr \<lparr>key = 0, responsible_node = - 1, hop_count = 7, path = [0, 1, 2, 3, 4, 5, 6, 7],
          success = False\<rparr>"
    by code_simp
  from chord_failed_lookup_sentinel [OF h, of 3] h show ?thesis by simp
qed

text \<open>
  C4. The invariant \<open>finger_table[0] == successor\<close> is not preserved by \<open>stabilize\<close>.
  After node \<open>1\<close> has left, node \<open>2\<close> has \<open>successor = 1\<close> and \<open>finger_table[0] = 1\<close>;
  its \<open>stabilize\<close> finds the successor unregistered and no backup in \<open>successor_list\<close>,
  assigns \<open>successor = node_id = 2\<close> and returns, leaving \<open>finger_table[0] = 1\<close>.
\<close>

theorem chord_stabilize_breaks_finger0:
  "ebind chord_scenario_before (\<lambda>w. successor_and_finger0 w 1) = Inr (1, 1) \<and>
   ebind chord_scenario_before (\<lambda>w. ebind (chord_stabilize w 1) (\<lambda>w'. successor_and_finger0 w' 1))
     = Inr (2, 1)"
  by code_simp

section \<open>Properties of the XOR overlay\<close>

lemma ebind_Inr_iff: "ebind m f = Inr y \<longleftrightarrow> (\<exists>x. m = Inr x \<and> f x = Inr y)"
  by (cases m) (simp_all add: ebind_def)

lemma bucket_closedD: "bucket_closed Q \<Longrightarrow> Q w \<Longrightarrow> update_bucket w r x = Inr w' \<Longrightarrow> Q w'"
  unfolding bucket_closed_def by blast

lemma find_node_rpc_preserves:
  "bucket_closed Q \<Longrightarrow> Q w \<Longrightarrow> find_node_rpc w r t q = Inr (w', xs) \<Longrightarrow> Q w'"
  by (auto simp: find_node_rpc_def ebind_Inr_iff Let_def dest: bucket_closedD)

lemma ingest_preserves:
  "bucket_closed Q \<Longrightarrow> Q w \<Longrightarrow> ingest w self sid rs sl fn = Inr (w', sl', fn') \<Longrightarrow> Q w'"
proof (induction rs arbitrary: w sl fn)
  case Nil
  then show ?case by simp
next
  case (Cons r rs)
  from Cons.prems(3) obtain w1 where u: "update_bucket w self r = Inr w1"
    by (auto split: sum.splits)
  have q1: "Q w1" using bucket_closedD [OF Cons.prems(1,2) u] .
  from Cons.prems(3) u show ?case
    by (auto split: if_splits intro: Cons.IH [OF Cons.prems(1) q1])
qed

lemma query_all_preserves:
  "bucket_closed Q \<Longrightarrow> Q w \<Longrightarrow>
   query_all w self sid k tq sl qd pth fn = Inr (w', sl', qd', pth', fn') \<Longrightarrow> Q w'"
proof (induction tq arbitrary: w sl qd pth fn)
  case Nil
  then show ?case by simp
next
  case (Cons nid rest)
  show ?case
  proof (cases "get_node w nid")
    case None
    with Cons.prems show ?thesis by (auto intro: Cons.IH)
  next
    case (Some t)
    with Cons.prems(3) obtain w1 returned w2 sl2 fn2 where
      f: "find_node_rpc w t k sid = Inr (w1, returned)" and
      i: "ingest w1 self sid returned sl fn = Inr (w2, sl2, fn2)" and
      q: "query_all w2 self sid k rest sl2 (insert nid qd) (pth @ [nid]) fn2 = Inr (w', sl', qd', pth', fn')"
      by (auto split: sum.splits prod.splits)
    have "Q w1" using find_node_rpc_preserves [OF Cons.prems(1,2) f] .
    then have "Q w2" using ingest_preserves [OF Cons.prems(1) _ i] by blast
    then show ?thesis using Cons.IH [OF Cons.prems(1) _ q] by blast
  qed
qed

lemma kad_loop_preserves:
  "bucket_closed Q \<Longrightarrow> Q w \<Longrightarrow>
   kad_lookup_loop w self s k sl qd pth hops = Inr (w', sl', pth', hops') \<Longrightarrow> Q w'"
proof (induction w self s k sl qd pth hops rule: kad_lookup_loop.induct)
  case (1 w self s k shortlist queried pth hops)
  define tq where "tq = take (kad_alpha s) (filter (\<lambda>n. n \<notin> queried) shortlist)"
  note eq = "1.prems"(3) [unfolded kad_lookup_loop.simps [of w self s k shortlist queried pth hops],
      folded tq_def]
  show ?case
  proof (cases "tq = []")
    case True
    with eq "1.prems"(2) show ?thesis
      by (simp add: Let_def)
  next
    case ne: False
    with eq obtain w1 sl1 qd1 pth1 fn1 where
      qa: "query_all w self (node_id s) k tq shortlist queried pth False = Inr (w1, sl1, qd1, pth1, fn1)"
      by (auto simp: Let_def split: sum.splits prod.splits)
    have q1: "Q w1" using query_all_preserves [OF "1.prems"(1,2) qa] .
    define sl2 where "sl2 = take (kad_k s) (sort_key (\<lambda>n. distance n k) sl1)"
    show ?thesis
    proof (cases "\<not> fn1 \<or> hops + 1 > id_bits s * 2")
      case True
      with eq ne qa q1 show ?thesis
        by (auto simp: Let_def split: if_splits)
    next
      case False
      then have fn: "fn1" and le: "\<not> id_bits s * 2 < hops + 1" by auto
      have rec: "kad_lookup_loop w1 self s k sl2 qd1 pth1 (hops + 1) = Inr (w', sl', pth', hops')"
        using eq ne qa fn le by (simp add: sl2_def Let_def)
      have "\<not> \<not> fn1" using fn by simp
      from "1.IH" [OF tq_def ne qa refl refl refl refl sl2_def this le "1.prems"(1) q1 rec]
      show ?thesis .
    qed
  qed
qed

lemma kad_lookup_preserves:
  assumes "bucket_closed Q" and "Q w" and "kad_lookup w self k = Inr (w', res)"
  shows "Q w'"
proof -
  from assms(3) obtain s where s: "deref w self = Inr s"
    by (auto simp: kad_lookup_def ebind_Inr_iff)
  show ?thesis
  proof (cases "find_closest_local s k (kad_k s) = []")
    case True
    with assms(2,3) s show ?thesis
      by (simp add: kad_lookup_def ebind_def)
  next
    case False
    with assms(3) s obtain sl' pth' hops' where
      "kad_lookup_loop w self s k (find_closest_local s k (kad_k s)) {node_id s} [node_id s] 0
         = Inr (w', sl', pth', hops')"
      by (auto simp: kad_lookup_def ebind_Inr_iff Let_def split: prod.splits)
    from kad_loop_preserves [OF assms(1,2) this] show ?thesis .
  qed
qed

lemma update_bucket_cases:
  assumes "update_bucket w self x = Inr w'"
  shows "w' = w \<or> (\<exists>bs. self < length (heap w) \<and>
           w' = put w self ((heap w ! self)\<lparr>buckets := bs\<rparr>))"
  using assms
  by (auto simp: update_bucket_def ebind_Inr_iff deref_def Let_def split: if_splits)

lemma map_data_put_buckets:
  "self < length (heap w) \<Longrightarrow>
   map data (heap (put w self ((heap w ! self)\<lparr>buckets := bs\<rparr>))) = map data (heap w)"
  by (simp add: put_def map_update list_update_same_conv)

lemma update_bucket_frame: "bucket_closed (\<lambda>w. map data (heap w) = D \<and> nodes w = N)"
  unfolding bucket_closed_def
proof (intro allI impI)
  fix w r x w'
  assume q: "map data (heap w) = D \<and> nodes w = N" and u: "update_bucket w r x = Inr w'"
  from update_bucket_cases [OF u] show "map data (heap w') = D \<and> nodes w' = N"
  proof
    assume "w' = w" with q show ?thesis by simp
  next
    assume "\<exists>bs. r < length (heap w) \<and> w' = put w r ((heap w ! r)\<lparr>buckets := bs\<rparr>)"
    then obtain bs where "r < length (heap w)" and w': "w' = put w r ((heap w ! r)\<lparr>buckets := bs\<rparr>)"
      by blast
    then have "map data (heap w') = map data (heap w)"
      using map_data_put_buckets by simp
    moreover have "nodes w' = nodes w" using w' by (simp add: put_def)
    ultimately show ?thesis using q by simp
  qed
qed

lemma kad_lookup_frame:
  "kad_lookup w self k = Inr (w', res) \<Longrightarrow> map data (heap w') = map data (heap w) \<and> nodes w' = nodes w"
  using kad_lookup_preserves [OF update_bucket_frame [of "map data (heap w)" "nodes w"]]
  by blast

lemma kad_lookup_success: "kad_lookup w self k = Inr (w', res) \<Longrightarrow> success res"
  by (auto simp: kad_lookup_def ebind_Inr_iff Let_def split: if_splits prod.splits)

section \<open>Store\<close>

text \<open>
  C9. For each of the three overlays, a \<open>store\<close> that returns \<open>False\<close> leaves the \<open>data\<close> map
  of every node object as it was. (The XOR lookup inside \<open>store\<close> does update buckets.)
\<close>

theorem failed_store_writes_nothing:
  "(chord_store cw cself ck cv = Inr (cw', False) \<longrightarrow> map data (heap cw') = map data (heap cw)) \<and>
   (kad_store kw kself kk kv = Inr (kw', False) \<longrightarrow> map data (heap kw') = map data (heap kw)) \<and>
   (pastry_store pw pself pk pv = Inr (pw', False) \<longrightarrow> map data (heap pw') = map data (heap pw))"
proof (intro conjI impI)
  assume "chord_store cw cself ck cv = Inr (cw', False)"
  then have "cw' = cw"
    by (auto simp: chord_store_def ebind_Inr_iff split: if_splits option.splits)
  then show "map data (heap cw') = map data (heap cw)" by simp
next
  assume "pastry_store pw pself pk pv = Inr (pw', False)"
  then have "pw' = pw"
    by (auto simp: pastry_store_def ebind_Inr_iff split: if_splits option.splits)
  then show "map data (heap pw') = map data (heap pw)" by simp
next
  assume "kad_store kw kself kk kv = Inr (kw', False)"
  then obtain res where "kad_lookup kw kself kk = Inr (kw', res)"
    by (auto simp: kad_store_def ebind_Inr_iff split: if_splits option.splits prod.splits)
  then show "map data (heap kw') = map data (heap kw)"
    using kad_lookup_frame by blast
qed

theorem failed_store_writes_nothing_witness:
  "chord_store chord_stale 0 0 ''v'' = Inr (chord_stale, False) \<and>
   map data (heap chord_stale) = map data (heap chord_stale) \<and>
   (\<exists>kw'. kad_store kad_stale 0 9 ''v'' = Inr (kw', False) \<and>
          map data (heap kw') = map data (heap kad_stale)) \<and>
   pastry_store pastry_detached 0 7 ''v'' = Inr (pastry_detached, False) \<and>
   map data (heap pastry_detached) = map data (heap pastry_detached)"
proof -
  have c1: "chord_lookup chord_stale 0 0 =
      Inr \<lparr>key = 0, responsible_node = 1, hop_count = 0, path = [2], success = True\<rparr>"
    by code_simp
  have c2: "get_node chord_stale 1 = None"
    by code_simp
  have c: "chord_store chord_stale 0 0 ''v'' = Inr (chord_stale, False)"
    by (simp add: chord_store_def c1 c2 ebind_def)
  have p1: "pastry_lookup pastry_detached 0 7 =
      Inr \<lparr>key = 7, responsible_node = 0x0200, hop_count = 0, path = [0x0200], success = True\<rparr>"
    by code_simp
  have p2: "get_node pastry_detached 0x0200 = None"
    by code_simp
  have p: "pastry_store pastry_detached 0 7 ''v'' = Inr (pastry_detached, False)"
    by (simp add: pastry_store_def p1 p2 ebind_def)
  have "ebind (kad_store kad_stale 0 9 ''v'') (\<lambda>(w', ok). Inr ok) = Inr False"
    by code_simp
  then obtain kw' where k: "kad_store kad_stale 0 9 ''v'' = Inr (kw', False)"
    by (auto simp: ebind_Inr_iff)
  from failed_store_writes_nothing
    [of chord_stale 0 0 "''v''" chord_stale kad_stale 0 9 "''v''" kw' pastry_detached 0 7 "''v''"
        pastry_detached]
    c k p
  show ?thesis by blast
qed

section \<open>Join with a bootstrap that is not registered\<close>













section \<open>Lookups return\<close>
















section \<open>Routing-table bounds\<close>

subsection \<open>RING\<close>










lemma chord_shape_nodes [simp]:
  "chord_shape (register w r i) = chord_shape w" "chord_shape (unregister w i) = chord_shape w"
  by (simp_all add: chord_shape_def register_def unregister_def)















subsection \<open>XOR\<close>



lemma kad_bounded_nodes [simp]:
  "kad_bounded (register w r i) = kad_bounded w" "kad_bounded (unregister w i) = kad_bounded w"
  by (simp_all add: kad_bounded_def register_def unregister_def)














subsection \<open>PREFIX\<close>



lemma pastry_bounded_nodes [simp]:
  "pastry_bounded (register w r i) = pastry_bounded w"
  "pastry_bounded (unregister w i) = pastry_bounded w"
  by (simp_all add: pastry_bounded_def register_def unregister_def)

lemma table_shape_fields [simp]:
  "table_shape (n\<lparr>leaf_set := l\<rparr>) = table_shape n"
  "table_shape (n\<lparr>data := d\<rparr>) = table_shape n"
  by (simp_all add: table_shape_def num_digits_def base_def)




















subsection \<open>The bounds in every reachable state\<close>







section \<open>Virtual time\<close>

text \<open>
  C3. The tests of the repository build the network as
  \<open>NetworkSimulator(per_hop_delay=1.0)\<close> and read \<open>network.virtual_time\<close>; the constructor
  of base.py rejects the call.
\<close>

theorem network_simulator_rejects_delay:
  "NetworkSimulator_init [(''per_hop_delay'', 1)] = (Inl TypeError :: error + kad_node world)"
  by (simp add: NetworkSimulator_init_def)

section \<open>Identifier generators\<close>

lemma hash_key_range:
  "0 \<le> hash_key sha1 s m" "hash_key sha1 s m < 2 ^ m" "hash_key sha1 s m < 2 ^ 160"
proof -
  show "0 \<le> hash_key sha1 s m" "hash_key sha1 s m < 2 ^ m"
    by (simp_all add: hash_key_def)
  have "uint (sha1 s) mod 2 ^ m \<le> uint (sha1 s)"
    by (rule zmod_le_nonneg_dividend) simp
  also have "\<dots> < 2 ^ 160"
    using uint_lt2p [of "sha1 s"] by simp
  finally show "hash_key sha1 s m < 2 ^ 160"
    by (simp add: hash_key_def)
qed

lemma gen_loop_partial:
  assumes "gen_loop sha1 prefix seed count m ids i = Some xs"
    and "finite ids" and "\<forall>x\<in>ids. 0 \<le> x \<and> x < 2 ^ m"
  shows "sorted_wrt (<) xs \<and> length xs = count \<and> (\<forall>x\<in>set xs. 0 \<le> x \<and> x < 2 ^ m)"
proof -
  have "finite ids \<longrightarrow> (\<forall>x\<in>ids. 0 \<le> x \<and> x < 2 ^ m) \<longrightarrow>
      sorted_wrt (<) xs \<and> length xs = count \<and> (\<forall>x\<in>set xs. 0 \<le> x \<and> x < 2 ^ m)"
  proof (rule gen_loop.raw_induct [where P = "\<lambda>sha1 prefix seed count m ids i xs.
      finite ids \<longrightarrow> (\<forall>x\<in>ids. 0 \<le> x \<and> x < 2 ^ m) \<longrightarrow>
      sorted_wrt (<) xs \<and> length xs = count \<and> (\<forall>x\<in>set xs. 0 \<le> x \<and> x < 2 ^ m)", OF _ assms(1)])
    fix f sha1 prefix seed count m and ids :: "int set" and i ys
    assume IH: "\<And>sha1 prefix seed count m ids i ys.
        f sha1 prefix seed count m ids i = Some ys \<Longrightarrow>
        finite ids \<longrightarrow> (\<forall>x\<in>ids. 0 \<le> x \<and> x < 2 ^ m) \<longrightarrow>
        sorted_wrt (<) ys \<and> length ys = count \<and> (\<forall>x\<in>set ys. 0 \<le> x \<and> x < 2 ^ m)"
      and body: "(if card ids < count
         then f sha1 prefix seed count m (insert (hash_key sha1 (seeded prefix seed i) m) ids) (i + 1)
         else Some (take count (sorted_list_of_set ids))) = Some ys"
    show "finite ids \<longrightarrow> (\<forall>x\<in>ids. 0 \<le> x \<and> x < 2 ^ m) \<longrightarrow>
        sorted_wrt (<) ys \<and> length ys = count \<and> (\<forall>x\<in>set ys. 0 \<le> x \<and> x < 2 ^ m)"
    proof (intro impI)
      assume fin: "finite ids" and rng: "\<forall>x\<in>ids. 0 \<le> x \<and> x < 2 ^ m"
      show "sorted_wrt (<) ys \<and> length ys = count \<and> (\<forall>x\<in>set ys. 0 \<le> x \<and> x < 2 ^ m)"
      proof (cases "card ids < count")
        case True
        with body have "f sha1 prefix seed count m
            (insert (hash_key sha1 (seeded prefix seed i) m) ids) (i + 1) = Some ys" by simp
        from IH [OF this] fin rng hash_key_range(1,2) [of sha1 "seeded prefix seed i" m]
        show ?thesis by simp
      next
        case False
        with body have ys: "ys = take count (sorted_list_of_set ids)" by simp
        have "sorted_wrt (<) (sorted_list_of_set ids)"
          by (simp add: strict_sorted_iff)
        then have "sorted_wrt (<) ys"
          unfolding ys by (rule sorted_wrt_take)
        moreover have "length ys = count"
          using False fin by (simp add: ys)
        moreover have "\<forall>x\<in>set ys. 0 \<le> x \<and> x < 2 ^ m"
          using rng fin by (auto simp: ys dest!: in_set_takeD)
        ultimately show ?thesis by simp
      qed
    qed
  qed
  with assms(2,3) show ?thesis by simp
qed

lemma gen_loop_diverges:
  assumes big: "2 ^ 160 < count" and "finite ids" and "\<forall>x\<in>ids. 0 \<le> x \<and> x < 2 ^ 160"
  shows "gen_loop sha1 prefix seed count m ids i = None"
proof (rule ccontr)
  assume "gen_loop sha1 prefix seed count m ids i \<noteq> None"
  then obtain xs where r: "gen_loop sha1 prefix seed count m ids i = Some xs" by auto
  have "2 ^ 160 < count \<longrightarrow> \<not> (finite ids \<and> (\<forall>x\<in>ids. 0 \<le> x \<and> x < 2 ^ 160))"
  proof (rule gen_loop.raw_induct [where P = "\<lambda>sha1 prefix seed count m ids i xs.
      2 ^ 160 < count \<longrightarrow> \<not> (finite ids \<and> (\<forall>x\<in>ids. 0 \<le> x \<and> x < 2 ^ 160))", OF _ r])
    fix f sha1 prefix seed and count :: nat and m and ids :: "int set" and i and ys :: "int list"
    assume IH: "\<And>sha1 prefix seed count m ids i ys.
        f sha1 prefix seed count m ids i = Some ys \<Longrightarrow>
        2 ^ 160 < count \<longrightarrow> \<not> (finite ids \<and> (\<forall>x\<in>ids. 0 \<le> x \<and> x < 2 ^ 160))"
      and body: "(if card ids < count
         then f sha1 prefix seed count m (insert (hash_key sha1 (seeded prefix seed i) m) ids) (i + 1)
         else Some (take count (sorted_list_of_set ids))) = Some ys"
    show "2 ^ 160 < count \<longrightarrow> \<not> (finite ids \<and> (\<forall>x\<in>ids. 0 \<le> x \<and> x < 2 ^ 160))"
    proof (intro impI notI)
      assume big: "2 ^ 160 < count"
        and inv: "finite ids \<and> (\<forall>x\<in>ids. 0 \<le> x \<and> x < 2 ^ 160)"
      show False
      proof (cases "card ids < count")
        case True
        with body have "f sha1 prefix seed count m
            (insert (hash_key sha1 (seeded prefix seed i) m) ids) (i + 1) = Some ys" by simp
        from IH [OF this] big inv hash_key_range(1,3) [of sha1 "seeded prefix seed i" m]
        show False by simp
      next
        case False
        have "ids \<subseteq> {0 ..< 2 ^ 160}" using inv by auto
        then have "card ids \<le> card {0 ..< (2 ^ 160 :: int)}"
          by (intro card_mono) simp_all
        then have "card ids \<le> 2 ^ 160" by simp
        with False big show False by simp
      qed
    qed
  qed
  with assms show False by simp
qed

lemma gen_loop_returns:
  assumes "count \<le> card ((\<lambda>j. hash_key sha1 (seeded prefix seed j) m) ` {..<n})"
    and "ids = (\<lambda>j. hash_key sha1 (seeded prefix seed j) m) ` {..<i}" and "i \<le> n"
  shows "\<exists>xs. gen_loop sha1 prefix seed count m ids i = Some xs"
  using assms(2,3)
proof (induction "n - i" arbitrary: i ids)
  case 0
  then have "i = n" by simp
  with 0 assms(1) have "\<not> card ids < count" by simp
  then show ?case by (subst gen_loop.simps) simp
next
  case (Suc d)
  show ?case
  proof (cases "card ids < count")
    case False
    then show ?thesis by (subst gen_loop.simps) simp
  next
    case True
    have "insert (hash_key sha1 (seeded prefix seed i) m) ids
        = (\<lambda>j. hash_key sha1 (seeded prefix seed j) m) ` {..<i + 1}"
      using Suc.prems(1) by (auto simp: less_Suc_eq)
    moreover have "d = n - (i + 1)" "i + 1 \<le> n" using Suc.hyps(2) by simp_all
    ultimately have "\<exists>xs. gen_loop sha1 prefix seed count m
        (insert (hash_key sha1 (seeded prefix seed i) m) ids) (i + 1) = Some xs"
      using Suc.hyps(1) by blast
    with True show ?thesis by (subst gen_loop.simps) simp
  qed
qed

end
